theory Spec2Isabelle
  imports Main
begin

section \<open>JavaScript values used by the configuration module\<close>

text \<open>
  Settings are JavaScript strings that may be absent: \<open>process.env\<close> holds strings only,
  and the module treats every setting as a string (\<open>=== 'true'\<close>, \<open>.split(',')\<close>,
  \<open>parseInt(..., 10)\<close>, template literals). An absent property reads as \<open>undefined\<close>,
  which is \<open>None\<close> here. Strings are byte strings; only the ASCII white space of
  \<open>String.prototype.trim\<close> and \<open>parseInt\<close> is modelled. Property names inherited from
  \<open>Object.prototype\<close> (\<open>toString\<close>, \<open>constructor\<close>, ...) are not modelled as keys of
  the literal tables.
\<close>

datatype js_error = TypeError

datatype jsnum = Num int | NaN

datatype jsval = Undefined | Null | Bool bool | Number jsnum | String string

text \<open>Truthiness of a possibly undefined string: \<open>undefined\<close> and \<open>''\<close> are falsy.\<close>

definition truthy :: "string option \<Rightarrow> bool" where
  "truthy v = (case v of None \<Rightarrow> False | Some s \<Rightarrow> s \<noteq> [])"

text \<open>\<open>a || b\<close> where both sides may be undefined.\<close>

definition js_or :: "string option \<Rightarrow> string option \<Rightarrow> string option" where
  "js_or a b = (if truthy a then a else b)"

text \<open>\<open>a || d\<close> where the right operand is a string.\<close>

definition or_else :: "string option \<Rightarrow> string \<Rightarrow> string" where
  "or_else a d = (case a of None \<Rightarrow> d | Some s \<Rightarrow> if s \<noteq> [] then s else d)"

text \<open>\<open>s.split(c)\<close> for a one-character separator: never the empty array.\<close>

fun split_on :: "char \<Rightarrow> string \<Rightarrow> string list" where
  "split_on c [] = [[]]"
| "split_on c (x # xs) =
     (if x = c then [] # split_on c xs
      else (case split_on c xs of
              [] \<Rightarrow> [[x]]
            | y # ys \<Rightarrow> (x # y) # ys))"

definition is_space :: "char \<Rightarrow> bool" where
  "is_space c = (c \<in> set [CHR 0x09, CHR 0x0A, CHR 0x0B, CHR 0x0C, CHR 0x0D, CHR 0x20])"

definition trim :: "string \<Rightarrow> string" where
  "trim s = rev (dropWhile is_space (rev (dropWhile is_space s)))"

definition is_digit :: "char \<Rightarrow> bool" where
  "is_digit c = (c \<in> set ''0123456789'')"

definition digit_val :: "char \<Rightarrow> int" where
  "digit_val c = int (of_char c) - 48"

text \<open>
  \<open>parseInt(s, 10)\<close>: skip leading white space, read an optional sign, then the longest
  run of decimal digits; no digit at all gives \<open>NaN\<close>. (Values are exact integers here,
  not rounded to doubles.)
\<close>

definition parseInt10 :: "string \<Rightarrow> jsnum" where
  "parseInt10 s =
     (let s1 = dropWhile is_space s;
          sgn_rest = (case s1 of
                        [] \<Rightarrow> (1, [])
                      | c # r \<Rightarrow> if c = CHR ''-'' then (- 1, r)
                                 else if c = CHR ''+'' then (1, r)
                                 else (1, s1));
          ds = takeWhile is_digit (snd sgn_rest)
      in if ds = [] then NaN
         else Num (fst sgn_rest * foldl (\<lambda>a c. 10 * a + digit_val c) 0 ds))"

section \<open>The runtime environment\<close>

text \<open>
  \<open>Constants.expoConfig\<close> and \<open>Constants.manifest\<close> are manifest objects (or null) with an
  optional \<open>extra\<close> settings object and an optional \<open>hostUri\<close>.
\<close>

record app_manifest =
  extra :: "(string \<rightharpoonup> string) option"
  hostUri :: "string option"

record environment =
  expoConfig :: "app_manifest option"
  manifest :: "app_manifest option"
  process_env :: "string \<rightharpoonup> string"
  DEV :: bool
  isDevice :: bool
  platform_OS :: string

text \<open>Optional chaining: \<open>m?.extra\<close> and \<open>m?.hostUri\<close>.\<close>

definition opt_extra :: "app_manifest option \<Rightarrow> (string \<rightharpoonup> string) option" where
  "opt_extra m = (case m of None \<Rightarrow> None | Some x \<Rightarrow> extra x)"

definition opt_hostUri :: "app_manifest option \<Rightarrow> string option" where
  "opt_hostUri m = (case m of None \<Rightarrow> None | Some x \<Rightarrow> hostUri x)"

section \<open>getEnvVar\<close>

definition keyMapping :: "(string \<times> string) list" where
  "keyMapping =
     [(''API_BASE_URL'', ''apiBaseUrl''),
      (''API_TIMEOUT'', ''apiTimeout''),
      (''NODE_ENV'', ''nodeEnv''),
      (''APP_ENV'', ''appEnv''),
      (''HEALTH_ENDPOINT'', ''healthEndpoint''),
      (''QR_VERIFY_ENDPOINT'', ''qrVerifyEndpoint''),
      (''QR_MARK_USED_ENDPOINT'', ''qrMarkUsedEndpoint''),
      (''AUTH_LOGIN_ENDPOINT'', ''authLoginEndpoint''),
      (''AUTH_SIGNUP_ENDPOINT'', ''authSignupEndpoint''),
      (''ANDROID_EMULATOR_API_URL'', ''androidEmulatorApiUrl''),
      (''IOS_SIMULATOR_API_URL'', ''iosSimulatorApiUrl''),
      (''DEVICE_API_URL'', ''deviceApiUrl''),
      (''FALLBACK_API_URLS'', ''fallbackApiUrls''),
      (''DEBUG_MODE'', ''debugMode''),
      (''ENABLE_NETWORK_DEBUGGING'', ''enableNetworkDebugging''),
      (''ENABLE_API_LOGGING'', ''enableApiLogging''),
      (''SECURE_STORE_KEY_PREFIX'', ''secureStoreKeyPrefix'')]"

text \<open>
  \<open>Constants.expoConfig?.extra || Constants.manifest?.extra || {}\<close>: an object is truthy
  even when it has no property.
\<close>

definition extraConfig :: "environment \<Rightarrow> (string \<rightharpoonup> string)" where
  "extraConfig e =
     (case opt_extra (expoConfig e) of
        Some x \<Rightarrow> x
      | None \<Rightarrow> (case opt_extra (manifest e) of
                   Some x \<Rightarrow> x
                 | None \<Rightarrow> Map.empty))"

definition mappedKey :: "string \<Rightarrow> string" where
  "mappedKey key = or_else (map_of keyMapping key) key"

definition getEnvVar :: "environment \<Rightarrow> string \<Rightarrow> string \<Rightarrow> string" where
  "getEnvVar e key defaultValue =
     (let envValue = js_or (extraConfig e (mappedKey key)) (process_env e key)
      in or_else envValue defaultValue)"

section \<open>Module constants, computed once when the module is loaded\<close>

record api_config =
  BASE_URL :: string
  TIMEOUT :: jsnum
  HEALTH_ENDPOINT :: string
  QR_VERIFY_ENDPOINT :: string
  QR_MARK_USED_ENDPOINT :: string
  AUTH_LOGIN_ENDPOINT :: string
  AUTH_SIGNUP_ENDPOINT :: string

record platform_api_config =
  ANDROID_EMULATOR :: string
  IOS_SIMULATOR :: string
  DEVICE :: string

record module_consts =
  API_CONFIG :: api_config
  PLATFORM_API_CONFIG :: platform_api_config
  FALLBACK_URLS :: "string list"

definition load_API_CONFIG :: "environment \<Rightarrow> api_config" where
  "load_API_CONFIG e =
     \<lparr> BASE_URL = getEnvVar e ''API_BASE_URL'' '''',
       TIMEOUT = parseInt10 (getEnvVar e ''API_TIMEOUT'' ''10000''),
       HEALTH_ENDPOINT = getEnvVar e ''HEALTH_ENDPOINT'' ''/api/health'',
       QR_VERIFY_ENDPOINT = getEnvVar e ''QR_VERIFY_ENDPOINT'' ''/api/bookings/qr-details'',
       QR_MARK_USED_ENDPOINT = getEnvVar e ''QR_MARK_USED_ENDPOINT'' ''/api/bookings/mark-used'',
       AUTH_LOGIN_ENDPOINT = getEnvVar e ''AUTH_LOGIN_ENDPOINT'' ''/api/auth/login'',
       AUTH_SIGNUP_ENDPOINT = getEnvVar e ''AUTH_SIGNUP_ENDPOINT'' ''/api/auth/sign-up'' \<rparr>"

definition load_PLATFORM_API_CONFIG :: "environment \<Rightarrow> platform_api_config" where
  "load_PLATFORM_API_CONFIG e =
     \<lparr> ANDROID_EMULATOR = getEnvVar e ''ANDROID_EMULATOR_API_URL'' ''http://10.0.2.2:5000'',
       IOS_SIMULATOR = getEnvVar e ''IOS_SIMULATOR_API_URL'' ''http://localhost:5000'',
       DEVICE = getEnvVar e ''DEVICE_API_URL'' '''' \<rparr>"

definition load_FALLBACK_URLS :: "environment \<Rightarrow> string list" where
  "load_FALLBACK_URLS e =
     map trim (split_on CHR '','' (getEnvVar e ''FALLBACK_API_URLS''
                                      ''http://10.0.2.2:5000,http://localhost:5000''))"

definition load_module :: "environment \<Rightarrow> module_consts" where
  "load_module e =
     \<lparr> API_CONFIG = load_API_CONFIG e,
       PLATFORM_API_CONFIG = load_PLATFORM_API_CONFIG e,
       FALLBACK_URLS = load_FALLBACK_URLS e \<rparr>"

section \<open>resolveApiBaseUrl\<close>

text \<open>
  \<open>arr[0]\<close> inside a template literal: an empty array would give \<open>undefined\<close>, printed
  as the text \<open>undefined\<close>.
\<close>

definition index0_text :: "string list \<Rightarrow> string" where
  "index0_text xs = (case xs of [] \<Rightarrow> ''undefined'' | x # _ \<Rightarrow> x)"

text \<open>
  The unguarded access \<open>expoConfig.hostUri.split(':')\<close> raises a TypeError when
  \<open>expoConfig\<close> is null or \<open>hostUri\<close> is undefined.
\<close>

definition hostUri_split :: "app_manifest option \<Rightarrow> js_error + string list" where
  "hostUri_split m =
     (case m of
        None \<Rightarrow> Inl TypeError
      | Some x \<Rightarrow> (case hostUri x of
                    None \<Rightarrow> Inl TypeError
                  | Some h \<Rightarrow> Inr (split_on CHR '':'' h)))"

definition resolveApiBaseUrl :: "module_consts \<Rightarrow> environment \<Rightarrow> js_error + string" where
  "resolveApiBaseUrl c e =
     (if DEV e \<and> truthy (opt_hostUri (expoConfig e)) then
        (case hostUri_split (expoConfig e) of
           Inl err \<Rightarrow> Inl err
         | Inr parts \<Rightarrow> Inr (''http://'' @ index0_text parts @ '':5000''))
      else
        (let configuredBaseUrl = getEnvVar e ''API_BASE_URL'' ''''
         in if configuredBaseUrl \<noteq> [] then Inr configuredBaseUrl
            else if isDevice e then Inr ''''
            else if platform_OS e = ''android'' then Inr (ANDROID_EMULATOR (PLATFORM_API_CONFIG c))
            else if platform_OS e = ''ios'' then Inr (IOS_SIMULATOR (PLATFORM_API_CONFIG c))
            else Inr (IOS_SIMULATOR (PLATFORM_API_CONFIG c))))"

section \<open>createApiConfig\<close>

record axios_config =
  baseURL :: string
  timeout :: jsnum
  headers :: "(string \<times> string) list"

definition createApiConfig :: "module_consts \<Rightarrow> string \<Rightarrow> axios_config" where
  "createApiConfig c b =
     \<lparr> baseURL = b,
       timeout = TIMEOUT (API_CONFIG c),
       headers = [(''Content-Type'', ''application/json'')] \<rparr>"

section \<open>The network\<close>

text \<open>
  What a request meets on the network: a response after some milliseconds, with its
  ok-status flag (HTTP 2xx) and the two flags the screens read from the body; a
  network failure after some milliseconds; or no answer at all.
\<close>

record response_data =
  success :: bool
  already_used :: bool

datatype net_response = Responds nat bool response_data | Fails nat | Hangs

text \<open>
  A request is a \<open>fetch\<close> GET of a full URL, or a GET or POST through an axios client
  (\<open>client.get(path)\<close>, \<open>client.post(path, body, config)\<close>), given by the client's base
  URL, the path, and for a POST the \<open>qr_data\<close> payload and the Authorization header if
  any; or the request a client sends when it is itself called as a function with a
  configuration that names no URL and no method: a GET of its bare base URL.
\<close>

datatype request =
    FetchGet string
  | AxiosGet string string
  | AxiosPost string string string "string option"
  | AxiosCall string

text \<open>
  The world answers the \<open>n\<close>-th awaited request of a run, and gives the environment as
  it is once \<open>n\<close> such requests have settled: each of them is awaited before the next
  statement runs, so the number of settled requests is the clock of a run.
\<close>

record world =
  net :: "nat \<Rightarrow> request \<Rightarrow> net_response"
  env_at :: "nat \<Rightarrow> environment"

section \<open>findWorkingApiUrl\<close>

text \<open>
  The default parameter value replaces an \<open>undefined\<close> argument; then anything that is
  not a number, is NaN or is below 50 becomes 3000. (Numbers are whole milliseconds.)
\<close>

definition sanitize_timeout :: "jsval \<Rightarrow> int" where
  "sanitize_timeout arg =
     (let t = (case arg of Undefined \<Rightarrow> Number (Num 3000) | v \<Rightarrow> v)
      in case t of
           Number (Num n) \<Rightarrow> if n < 50 then 3000 else n
         | _ \<Rightarrow> 3000)"

text \<open>\<open>arr.indexOf(x)\<close>: the first index holding \<open>x\<close>, or \<open>-1\<close>.\<close>

fun indexOf :: "'a list \<Rightarrow> 'a \<Rightarrow> int" where
  "indexOf [] x = - 1"
| "indexOf (y # ys) x =
     (if y = x then 0
      else (let i = indexOf ys x in if i = - 1 then - 1 else i + 1))"

text \<open>\<open>arr.filter((url, index, arr) => arr.indexOf(url) === index)\<close>.\<close>

definition filter_first_index :: "'a list \<Rightarrow> 'a list" where
  "filter_first_index arr =
     map fst (filter (\<lambda>(url, index). indexOf arr url = int index)
                     (zip arr [0..<length arr]))"

text \<open>
  One probe: the timer aborts the \<open>fetch\<close> after \<open>timeout_ms\<close>; the candidate counts as
  working only when a response arrives before that and \<open>response.ok\<close> holds. An abort,
  a network failure and a non-ok response all leave the loop running.
\<close>

definition probe_ok :: "int \<Rightarrow> net_response \<Rightarrow> bool" where
  "probe_ok timeout_ms r =
     (case r of
        Responds ms ok d \<Rightarrow> int ms < timeout_ms \<and> ok
      | Fails ms \<Rightarrow> False
      | Hangs \<Rightarrow> False)"

text \<open>
  The \<open>for\<close> loop over \<open>testUrls\<close>, from request number \<open>k\<close>: the URL returned inside the
  loop, if any, and the requests issued.
\<close>

fun probe_loop ::
  "(nat \<Rightarrow> request \<Rightarrow> net_response) \<Rightarrow> string \<Rightarrow> int \<Rightarrow> nat \<Rightarrow> string list
     \<Rightarrow> string option \<times> request list" where
  "probe_loop nw health timeout_ms k [] = (None, [])"
| "probe_loop nw health timeout_ms k (url # rest) =
     (let req = FetchGet (url @ health)
      in if probe_ok timeout_ms (nw k req) then (Some url, [req])
         else (case probe_loop nw health timeout_ms (Suc k) rest of
                 (found, reqs) \<Rightarrow> (found, req # reqs)))"

definition findWorkingApiUrl ::
  "module_consts \<Rightarrow> world \<Rightarrow> nat \<Rightarrow> jsval \<Rightarrow> js_error + (string \<times> request list)" where
  "findWorkingApiUrl c w k arg =
     (let timeout_ms = sanitize_timeout arg
      in case resolveApiBaseUrl c (env_at w k) of
           Inl err \<Rightarrow> Inl err
         | Inr best \<Rightarrow>
             (let testUrls = filter_first_index (best # FALLBACK_URLS c)
              in case probe_loop (net w) (HEALTH_ENDPOINT (API_CONFIG c)) timeout_ms k testUrls of
                   (Some url, reqs) \<Rightarrow> Inr (url, reqs)
                 | (None, reqs) \<Rightarrow>
                     (case resolveApiBaseUrl c (env_at w (k + length reqs)) of
                        Inl err \<Rightarrow> Inl err
                      | Inr last_resort \<Rightarrow> Inr (last_resort, reqs))))"

section \<open>The scanner screen\<close>





















section \<open>Concrete environments, worlds and screen states\<close>

text \<open>
  An Android emulator in a development build without a dev-host address, with the
  given \<open>extra\<close> settings and process environment.
\<close>

definition demo_env :: "(string \<times> string) list \<Rightarrow> (string \<times> string) list \<Rightarrow> environment" where
  "demo_env ex pe =
     \<lparr> expoConfig = Some \<lparr> extra = Some (map_of ex), hostUri = None \<rparr>,
       manifest = None,
       process_env = map_of pe,
       DEV = True,
       isDevice = False,
       platform_OS = ''android'' \<rparr>"

text \<open>
  A world whose environment never changes and whose network answers by a table,
  whatever the request number; a request outside the table gets no answer.
\<close>

definition demo_world :: "environment \<Rightarrow> (request \<times> net_response) list \<Rightarrow> world" where
  "demo_world e tbl =
     \<lparr> net = (\<lambda>k r. case map_of tbl r of Some x \<Rightarrow> x | None \<Rightarrow> Hangs),
       env_at = (\<lambda>k. e) \<rparr>"

definition no_body :: response_data where
  "no_body = \<lparr> success = False, already_used = False \<rparr>"


text \<open>A world whose environment changes once \<open>n\<close> requests have settled.\<close>

definition shifting_world ::
  "environment \<Rightarrow> nat \<Rightarrow> environment \<Rightarrow> (request \<times> net_response) list \<Rightarrow> world" where
  "shifting_world e n e' tbl =
     \<lparr> net = (\<lambda>k r. case map_of tbl r of Some x \<Rightarrow> x | None \<Rightarrow> Hangs),
       env_at = (\<lambda>k. if k < n then e else e') \<rparr>"

text \<open>
  Four candidates: the configured base URL \<open>http://a\<close> never answers, \<open>http://b\<close> refuses
  the connection, \<open>http://c\<close> and \<open>http://d\<close> answer HTTP 200 after 20 ms.
\<close>

definition probe_env :: environment where
  "probe_env = demo_env [(''apiBaseUrl'', ''http://a''),
                         (''fallbackApiUrls'', ''http://b,http://c,http://d'')] []"

definition probe_world :: world where
  "probe_world = demo_world probe_env
     [(FetchGet ''http://b/api/health'', Fails 5),
      (FetchGet ''http://c/api/health'', Responds 20 True no_body),
      (FetchGet ''http://d/api/health'', Responds 20 True no_body)]"

text \<open>
  Two candidates, none working: \<open>http://a\<close> never answers and \<open>http://b\<close> answers with a
  non-ok status; once both probes have settled the configured base URL is \<open>http://z\<close>.
\<close>

definition failing_env :: environment where
  "failing_env = demo_env [(''apiBaseUrl'', ''http://a''), (''fallbackApiUrls'', ''http://b'')] []"

definition failing_world :: world where
  "failing_world = shifting_world failing_env 2 (demo_env [(''apiBaseUrl'', ''http://z'')] [])
     [(FetchGet ''http://b/api/health'', Responds 20 False no_body)]"

text \<open>The configured base URL is listed twice more among the fallbacks.\<close>

definition dup_env :: environment where
  "dup_env = demo_env [(''apiBaseUrl'', ''http://a''),
                       (''fallbackApiUrls'', ''http://a,http://b,http://a'')] []"





section \<open>Facts about the configuration lookups\<close>

lemma demo_env_simps:
  "extraConfig (demo_env ex pe) = map_of ex"
  "process_env (demo_env ex pe) = map_of pe"
  "opt_hostUri (expoConfig (demo_env ex pe)) = None"
  "isDevice (demo_env ex pe) = False"
  "DEV (demo_env ex pe) = True"
  "platform_OS (demo_env ex pe) = ''android''"
  by (simp_all add: demo_env_def extraConfig_def opt_extra_def opt_hostUri_def)

lemma mappedKey_simps:
  "mappedKey ''API_BASE_URL'' = ''apiBaseUrl''"
  "mappedKey ''API_TIMEOUT'' = ''apiTimeout''"
  "mappedKey ''FALLBACK_API_URLS'' = ''fallbackApiUrls''"
  "mappedKey ''HEALTH_ENDPOINT'' = ''healthEndpoint''"
  "mappedKey ''QR_VERIFY_ENDPOINT'' = ''qrVerifyEndpoint''"
  "mappedKey ''QR_MARK_USED_ENDPOINT'' = ''qrMarkUsedEndpoint''"
  "mappedKey ''ANDROID_EMULATOR_API_URL'' = ''androidEmulatorApiUrl''"
  "mappedKey ''IOS_SIMULATOR_API_URL'' = ''iosSimulatorApiUrl''"
  by (simp_all add: mappedKey_def keyMapping_def or_else_def)

lemma getEnvVar_demo_env:
  "getEnvVar (demo_env ex pe) key d
     = or_else (js_or (map_of ex (mappedKey key)) (map_of pe key)) d"
  by (simp add: getEnvVar_def demo_env_simps)

lemma resolveApiBaseUrl_returns: "\<exists>s. resolveApiBaseUrl c e = Inr s"
  by (auto simp: resolveApiBaseUrl_def hostUri_split_def opt_hostUri_def truthy_def Let_def
           split: option.splits)

section \<open>resolveApiBaseUrl on a physical device\<close>

text \<open>
  Claim C7. On a physical device, with no dev-host address and no non-empty configured
  base URL, \<open>resolveApiBaseUrl\<close> returns the empty string, whatever the platform URLs
  are; and in every environment it returns a string: no branch raises, the unguarded
  \<open>expoConfig.hostUri.split\<close> included.
\<close>

theorem resolveApiBaseUrl_device_unresolved:
  "(isDevice e \<and> \<not> truthy (opt_hostUri (expoConfig e)) \<and> getEnvVar e ''API_BASE_URL'' '''' = ''''
      \<longrightarrow> resolveApiBaseUrl c e = Inr '''')
   \<and> (\<exists>s. resolveApiBaseUrl c e = Inr s)"
  by (auto simp: resolveApiBaseUrl_def hostUri_split_def opt_hostUri_def truthy_def Let_def
           split: option.splits)

theorem resolveApiBaseUrl_device_unresolved_witness:
  "isDevice ((demo_env [] [])\<lparr>isDevice := True\<rparr>)
   \<and> \<not> truthy (opt_hostUri (expoConfig ((demo_env [] [])\<lparr>isDevice := True\<rparr>)))
   \<and> getEnvVar ((demo_env [] [])\<lparr>isDevice := True\<rparr>) ''API_BASE_URL'' '''' = ''''
   \<and> ANDROID_EMULATOR (PLATFORM_API_CONFIG (load_module (demo_env [] []))) = ''http://10.0.2.2:5000''
   \<and> resolveApiBaseUrl (load_module (demo_env [] [])) ((demo_env [] [])\<lparr>isDevice := True\<rparr>) = Inr ''''"
proof -
  let ?e = "(demo_env [] [])\<lparr>isDevice := True\<rparr>"
  let ?c = "load_module (demo_env [] [])"
  have a: "isDevice ?e" by simp
  have b: "\<not> truthy (opt_hostUri (expoConfig ?e))"
    by (simp add: demo_env_def opt_hostUri_def truthy_def)
  have g: "getEnvVar ?e ''API_BASE_URL'' '''' = ''''"
    by (simp add: getEnvVar_def demo_env_def extraConfig_def opt_extra_def js_or_def
          truthy_def or_else_def)
  have p: "ANDROID_EMULATOR (PLATFORM_API_CONFIG ?c) = ''http://10.0.2.2:5000''"
    by (simp add: load_module_def load_PLATFORM_API_CONFIG_def getEnvVar_demo_env
          mappedKey_simps js_or_def truthy_def or_else_def)
  have r: "resolveApiBaseUrl ?c ?e = Inr ''''"
    using resolveApiBaseUrl_device_unresolved[of ?e ?c] a b g by blast
  show ?thesis by (intro conjI) (rule a, rule b, rule g, rule p, rule r)
qed

section \<open>resolveApiBaseUrl depends on five inputs only\<close>

text \<open>
  Claim C9. Two calls of \<open>resolveApiBaseUrl\<close> in environments with the same development
  flag, dev-host address, configured base URL, device flag and platform give the same
  string, whatever else differs between the two environments. (The platform URLs are
  module constants, fixed when the module was loaded.)
\<close>

theorem resolveApiBaseUrl_same_inputs:
  assumes "DEV e1 = DEV e2"
    and "opt_hostUri (expoConfig e1) = opt_hostUri (expoConfig e2)"
    and "getEnvVar e1 ''API_BASE_URL'' '''' = getEnvVar e2 ''API_BASE_URL'' ''''"
    and "isDevice e1 = isDevice e2"
    and "platform_OS e1 = platform_OS e2"
  shows "resolveApiBaseUrl c e1 = resolveApiBaseUrl c e2"
proof (cases "DEV e1 \<and> truthy (opt_hostUri (expoConfig e1))")
  case True
  then obtain h where h: "opt_hostUri (expoConfig e1) = Some h"
    by (auto simp: truthy_def split: option.splits)
  with assms(2) have h2: "opt_hostUri (expoConfig e2) = Some h" by simp
  have s1: "hostUri_split (expoConfig e1) = Inr (split_on CHR '':'' h)"
    using h by (auto simp: opt_hostUri_def hostUri_split_def split: option.splits)
  have s2: "hostUri_split (expoConfig e2) = Inr (split_on CHR '':'' h)"
    using h2 by (auto simp: opt_hostUri_def hostUri_split_def split: option.splits)
  from True assms(1,2) have "DEV e2 \<and> truthy (opt_hostUri (expoConfig e2))" by simp
  with True s1 s2 show ?thesis by (simp add: resolveApiBaseUrl_def)
next
  case False
  then have c1: "(DEV e1 \<and> truthy (opt_hostUri (expoConfig e1))) = False" by simp
  with assms(1,2) have c2: "(DEV e2 \<and> truthy (opt_hostUri (expoConfig e2))) = False" by simp
  show ?thesis
    unfolding resolveApiBaseUrl_def c1 c2 using assms(3,4,5) by simp
qed

theorem resolveApiBaseUrl_same_inputs_witness:
  "demo_env [(''apiBaseUrl'', ''http://cfg'')] []
       \<noteq> demo_env [(''debugMode'', ''false''), (''apiBaseUrl'', ''http://cfg'')]
                   [(''NODE_ENV'', ''production'')]
   \<and> resolveApiBaseUrl (load_module (demo_env [] []))
         (demo_env [(''apiBaseUrl'', ''http://cfg'')] [])
       = resolveApiBaseUrl (load_module (demo_env [] []))
           (demo_env [(''debugMode'', ''false''), (''apiBaseUrl'', ''http://cfg'')]
                     [(''NODE_ENV'', ''production'')])
   \<and> resolveApiBaseUrl (load_module (demo_env [] []))
         (demo_env [(''apiBaseUrl'', ''http://cfg'')] []) = Inr ''http://cfg''"
proof -
  let ?c = "load_module (demo_env [] [])"
  let ?e1 = "demo_env [(''apiBaseUrl'', ''http://cfg'')] []"
  let ?e2 = "demo_env [(''debugMode'', ''false''), (''apiBaseUrl'', ''http://cfg'')]
                      [(''NODE_ENV'', ''production'')]"
  have a: "DEV ?e1 = DEV ?e2" by (simp add: demo_env_simps)
  have b: "opt_hostUri (expoConfig ?e1) = opt_hostUri (expoConfig ?e2)"
    by (simp add: demo_env_simps)
  have g1: "getEnvVar ?e1 ''API_BASE_URL'' '''' = ''http://cfg''"
    by (simp add: getEnvVar_demo_env mappedKey_simps js_or_def truthy_def or_else_def)
  have g2: "getEnvVar ?e2 ''API_BASE_URL'' '''' = ''http://cfg''"
    by (simp add: getEnvVar_demo_env mappedKey_simps js_or_def truthy_def or_else_def)
  have g: "getEnvVar ?e1 ''API_BASE_URL'' '''' = getEnvVar ?e2 ''API_BASE_URL'' ''''"
    using g1 g2 by simp
  have d: "isDevice ?e1 = isDevice ?e2" by (simp add: demo_env_simps)
  have p: "platform_OS ?e1 = platform_OS ?e2" by (simp add: demo_env_simps)
  have ne: "?e1 \<noteq> ?e2"
  proof
    assume "?e1 = ?e2"
    then have "process_env ?e1 ''NODE_ENV'' = process_env ?e2 ''NODE_ENV''" by simp
    then show False by (simp add: demo_env_simps)
  qed
  have r: "resolveApiBaseUrl ?c ?e1 = Inr ''http://cfg''"
    by (simp add: resolveApiBaseUrl_def g1 demo_env_simps truthy_def)
  have same: "resolveApiBaseUrl ?c ?e1 = resolveApiBaseUrl ?c ?e2"
    by (rule resolveApiBaseUrl_same_inputs[OF a b g d p])
  show ?thesis by (intro conjI) (rule ne, rule same, rule r)
qed

section \<open>getEnvVar: precedence of the sources\<close>

lemma keyMapping_nonempty: "map_of keyMapping key = Some m \<Longrightarrow> m \<noteq> []"
  by (auto simp: keyMapping_def split: if_splits)

text \<open>
  Claim C4 as stated fails: a value the structured source defines does not win when it
  is the empty string. Here \<open>extra.apiBaseUrl\<close> is defined as \<open>''\<close> and the lookup
  returns the process environment's value instead.
\<close>

theorem getEnvVar_empty_string_counterexample:
  "extraConfig (demo_env [(''apiBaseUrl'', '''')] [(''API_BASE_URL'', ''http://env'')])
       (mappedKey ''API_BASE_URL'') = Some ''''
   \<and> getEnvVar (demo_env [(''apiBaseUrl'', '''')] [(''API_BASE_URL'', ''http://env'')])
         ''API_BASE_URL'' ''http://default'' = ''http://env''
   \<and> getEnvVar (demo_env [(''apiBaseUrl'', '''')] [(''API_BASE_URL'', ''http://env'')])
         ''API_BASE_URL'' ''http://default'' \<noteq> ''''"
  by (simp add: getEnvVar_demo_env demo_env_simps mappedKey_simps js_or_def truthy_def or_else_def)

text \<open>
  Claim C4, amended. The key is translated through the table (a key outside the table
  is used as it is). A non-empty value of the structured source under the translated
  key is returned, whatever the process environment and the default are; otherwise a
  non-empty process environment variable of the public name is returned; otherwise the
  default. An empty string counts as absent at both levels.
\<close>

theorem getEnvVar_precedence:
  "(map_of keyMapping key = Some m \<longrightarrow> mappedKey key = m)
   \<and> (map_of keyMapping key = None \<longrightarrow> mappedKey key = key)
   \<and> (truthy (extraConfig e (mappedKey key))
        \<longrightarrow> extraConfig e (mappedKey key) = Some (getEnvVar e key d))
   \<and> (\<not> truthy (extraConfig e (mappedKey key)) \<and> truthy (process_env e key)
        \<longrightarrow> process_env e key = Some (getEnvVar e key d))
   \<and> (\<not> truthy (extraConfig e (mappedKey key)) \<and> \<not> truthy (process_env e key)
        \<longrightarrow> getEnvVar e key d = d)"
proof (intro conjI impI)
  assume "map_of keyMapping key = Some m"
  then show "mappedKey key = m"
    using keyMapping_nonempty[of key m] by (simp add: mappedKey_def or_else_def)
next
  assume "map_of keyMapping key = None"
  then show "mappedKey key = key" by (simp add: mappedKey_def or_else_def)
next
  assume "truthy (extraConfig e (mappedKey key))"
  then show "extraConfig e (mappedKey key) = Some (getEnvVar e key d)"
    by (auto simp: getEnvVar_def js_or_def truthy_def or_else_def split: option.splits)
next
  assume "\<not> truthy (extraConfig e (mappedKey key)) \<and> truthy (process_env e key)"
  then show "process_env e key = Some (getEnvVar e key d)"
    by (auto simp: getEnvVar_def js_or_def truthy_def or_else_def split: option.splits)
next
  assume "\<not> truthy (extraConfig e (mappedKey key)) \<and> \<not> truthy (process_env e key)"
  then show "getEnvVar e key d = d"
    by (auto simp: getEnvVar_def js_or_def truthy_def or_else_def split: option.splits)
qed

theorem getEnvVar_precedence_witness:
  "map_of keyMapping ''API_BASE_URL'' = Some ''apiBaseUrl''
   \<and> truthy (extraConfig (demo_env [(''apiBaseUrl'', ''http://cfg'')]
                                    [(''API_BASE_URL'', ''http://env'')])
                (mappedKey ''API_BASE_URL''))
   \<and> getEnvVar (demo_env [(''apiBaseUrl'', ''http://cfg'')] [(''API_BASE_URL'', ''http://env'')])
        ''API_BASE_URL'' ''http://default'' = ''http://cfg''
   \<and> getEnvVar (demo_env [] [(''API_BASE_URL'', ''http://env'')])
        ''API_BASE_URL'' ''http://default'' = ''http://env''
   \<and> getEnvVar (demo_env [] []) ''API_BASE_URL'' ''http://default'' = ''http://default''"
proof -
  let ?e = "demo_env [(''apiBaseUrl'', ''http://cfg'')] [(''API_BASE_URL'', ''http://env'')]"
  let ?e2 = "demo_env [] [(''API_BASE_URL'', ''http://env'')]"
  let ?e3 = "demo_env [] []"
  have k: "map_of keyMapping ''API_BASE_URL'' = Some ''apiBaseUrl''"
    by (simp add: keyMapping_def)
  have m: "mappedKey ''API_BASE_URL'' = ''apiBaseUrl''"
    using getEnvVar_precedence[of "''API_BASE_URL''" "''apiBaseUrl''"] k by blast
  have x: "extraConfig ?e (mappedKey ''API_BASE_URL'') = Some ''http://cfg''"
    by (simp add: m demo_env_simps)
  have t: "truthy (extraConfig ?e (mappedKey ''API_BASE_URL''))"
    by (simp add: x truthy_def)
  have "extraConfig ?e (mappedKey ''API_BASE_URL'')
          = Some (getEnvVar ?e ''API_BASE_URL'' ''http://default'')"
    using getEnvVar_precedence[of "''API_BASE_URL''" "''apiBaseUrl''" ?e "''http://default''"] t
    by blast
  with x have r1: "getEnvVar ?e ''API_BASE_URL'' ''http://default'' = ''http://cfg''" by simp
  have n2: "\<not> truthy (extraConfig ?e2 (mappedKey ''API_BASE_URL''))
            \<and> truthy (process_env ?e2 ''API_BASE_URL'')"
    by (simp add: m demo_env_simps truthy_def)
  have "process_env ?e2 ''API_BASE_URL''
          = Some (getEnvVar ?e2 ''API_BASE_URL'' ''http://default'')"
    using getEnvVar_precedence[of "''API_BASE_URL''" "''apiBaseUrl''" ?e2 "''http://default''"] n2
    by blast
  then have r2: "getEnvVar ?e2 ''API_BASE_URL'' ''http://default'' = ''http://env''"
    by (simp add: demo_env_simps)
  have n3: "\<not> truthy (extraConfig ?e3 (mappedKey ''API_BASE_URL''))
            \<and> \<not> truthy (process_env ?e3 ''API_BASE_URL'')"
    by (simp add: m demo_env_simps truthy_def)
  have r3: "getEnvVar ?e3 ''API_BASE_URL'' ''http://default'' = ''http://default''"
    using getEnvVar_precedence[of "''API_BASE_URL''" "''apiBaseUrl''" ?e3 "''http://default''"] n3
    by blast
  show ?thesis by (intro conjI) (rule k, rule t, rule r1, rule r2, rule r3)
qed

section \<open>The client timeout\<close>

lemma parseInt10_not_a_number:
  "\<not> is_space c \<Longrightarrow> \<not> is_digit c \<Longrightarrow> c \<noteq> CHR ''-'' \<Longrightarrow> c \<noteq> CHR ''+'' \<Longrightarrow> parseInt10 (c # r) = NaN"
  by (simp add: parseInt10_def)

lemma getEnvVar_API_TIMEOUT:
  "getEnvVar e ''API_TIMEOUT'' d
     = or_else (js_or (extraConfig e ''apiTimeout'') (process_env e ''API_TIMEOUT'')) d"
  by (simp add: getEnvVar_def mappedKey_simps)

lemma API_TIMEOUT_default_only:
  assumes "TIMEOUT (API_CONFIG (load_module e)) = Num 10000"
  shows "(\<not> truthy (extraConfig e ''apiTimeout'') \<and> \<not> truthy (process_env e ''API_TIMEOUT''))
         \<or> (\<exists>v. v \<noteq> [] \<and> parseInt10 v = Num 10000
                 \<and> (extraConfig e ''apiTimeout'' = Some v
                      \<or> (\<not> truthy (extraConfig e ''apiTimeout'')
                          \<and> process_env e ''API_TIMEOUT'' = Some v)))"
proof (cases "truthy (extraConfig e ''apiTimeout'')")
  case True
  then obtain v where v: "extraConfig e ''apiTimeout'' = Some v" "v \<noteq> []"
    by (auto simp: truthy_def split: option.splits)
  then have "TIMEOUT (API_CONFIG (load_module e)) = parseInt10 v"
    by (simp add: load_module_def load_API_CONFIG_def getEnvVar_API_TIMEOUT js_or_def
          truthy_def or_else_def)
  with assms v show ?thesis by auto
next
  case False
  show ?thesis
  proof (cases "truthy (process_env e ''API_TIMEOUT'')")
    case True
    then obtain v where v: "process_env e ''API_TIMEOUT'' = Some v" "v \<noteq> []"
      by (auto simp: truthy_def split: option.splits)
    with False have "TIMEOUT (API_CONFIG (load_module e)) = parseInt10 v"
      by (simp add: load_module_def load_API_CONFIG_def getEnvVar_API_TIMEOUT js_or_def
            or_else_def)
    with assms v False show ?thesis by auto
  next
    case nf: False
    with False show ?thesis by simp
  qed
qed

text \<open>
  Claim C10 as stated fails in its last part: it is not only the complete absence of
  the setting that yields 10000. With \<open>extra.apiTimeout\<close> and \<open>process.env.API_TIMEOUT\<close>
  both defined as the empty string, the lookup falls through to the default and
  \<open>API_CONFIG.TIMEOUT\<close> is 10000.
\<close>

theorem API_TIMEOUT_empty_setting_counterexample:
  "extraConfig (demo_env [(''apiTimeout'', '''')] [(''API_TIMEOUT'', '''')]) ''apiTimeout''
       = Some ''''
   \<and> process_env (demo_env [(''apiTimeout'', '''')] [(''API_TIMEOUT'', '''')]) ''API_TIMEOUT''
       = Some ''''
   \<and> TIMEOUT (API_CONFIG (load_module (demo_env [(''apiTimeout'', '''')]
                                                  [(''API_TIMEOUT'', '''')]))) = Num 10000"
  by code_simp

text \<open>
  Claim C10, amended. \<open>API_CONFIG.TIMEOUT\<close> is \<open>parseInt\<close> of the resolved setting: of a
  non-empty \<open>extra.apiTimeout\<close>, else of a non-empty \<open>process.env.API_TIMEOUT\<close>, else of
  the default, which gives 10000; an empty string counts as absent at both levels. A
  resolved string that does not start (after white space) with a sign or a digit gives
  NaN, not 10000, and every configuration made by \<open>createApiConfig\<close> carries the module's
  \<open>TIMEOUT\<close>, NaN included. \<open>TIMEOUT\<close> is 10000 only when no non-empty setting is there
  or the non-empty setting that wins itself parses as 10000.
\<close>

theorem API_TIMEOUT_not_defaulted:
  "(extraConfig e ''apiTimeout'' = Some s \<and> s \<noteq> []
      \<longrightarrow> TIMEOUT (API_CONFIG (load_module e)) = parseInt10 s)
   \<and> (\<not> truthy (extraConfig e ''apiTimeout'') \<and> process_env e ''API_TIMEOUT'' = Some s \<and> s \<noteq> []
      \<longrightarrow> TIMEOUT (API_CONFIG (load_module e)) = parseInt10 s)
   \<and> (\<not> truthy (extraConfig e ''apiTimeout'') \<and> \<not> truthy (process_env e ''API_TIMEOUT'')
      \<longrightarrow> TIMEOUT (API_CONFIG (load_module e)) = Num 10000)
   \<and> (\<not> is_space ch \<and> \<not> is_digit ch \<and> ch \<noteq> CHR ''-'' \<and> ch \<noteq> CHR ''+''
      \<longrightarrow> parseInt10 (ch # r) = NaN)
   \<and> (parseInt10 (getEnvVar e ''API_TIMEOUT'' ''10000'') = NaN
      \<longrightarrow> TIMEOUT (API_CONFIG (load_module e)) = NaN
          \<and> TIMEOUT (API_CONFIG (load_module e)) \<noteq> Num 10000
          \<and> timeout (createApiConfig (load_module e) b) = NaN)
   \<and> (TIMEOUT (API_CONFIG (load_module e)) = Num 10000
      \<longrightarrow> (\<not> truthy (extraConfig e ''apiTimeout'') \<and> \<not> truthy (process_env e ''API_TIMEOUT''))
          \<or> (\<exists>v. v \<noteq> [] \<and> parseInt10 v = Num 10000
                  \<and> (extraConfig e ''apiTimeout'' = Some v
                       \<or> (\<not> truthy (extraConfig e ''apiTimeout'')
                           \<and> process_env e ''API_TIMEOUT'' = Some v))))"
proof (intro conjI impI)
  assume "extraConfig e ''apiTimeout'' = Some s \<and> s \<noteq> []"
  then show "TIMEOUT (API_CONFIG (load_module e)) = parseInt10 s"
    by (simp add: load_module_def load_API_CONFIG_def getEnvVar_API_TIMEOUT js_or_def
          truthy_def or_else_def)
next
  assume "\<not> truthy (extraConfig e ''apiTimeout'') \<and> process_env e ''API_TIMEOUT'' = Some s \<and> s \<noteq> []"
  then show "TIMEOUT (API_CONFIG (load_module e)) = parseInt10 s"
    by (simp add: load_module_def load_API_CONFIG_def getEnvVar_API_TIMEOUT js_or_def
          or_else_def)
next
  assume "\<not> truthy (extraConfig e ''apiTimeout'') \<and> \<not> truthy (process_env e ''API_TIMEOUT'')"
  then have "getEnvVar e ''API_TIMEOUT'' ''10000'' = ''10000''"
    by (auto simp: getEnvVar_API_TIMEOUT js_or_def truthy_def or_else_def split: option.splits)
  then show "TIMEOUT (API_CONFIG (load_module e)) = Num 10000"
    by (simp add: load_module_def load_API_CONFIG_def parseInt10_def is_space_def is_digit_def
          digit_val_def)
next
  assume "\<not> is_space ch \<and> \<not> is_digit ch \<and> ch \<noteq> CHR ''-'' \<and> ch \<noteq> CHR ''+''"
  then show "parseInt10 (ch # r) = NaN" by (simp add: parseInt10_not_a_number)
next
  assume a: "parseInt10 (getEnvVar e ''API_TIMEOUT'' ''10000'') = NaN"
  then show "TIMEOUT (API_CONFIG (load_module e)) = NaN"
    by (simp add: load_module_def load_API_CONFIG_def)
  from a show "TIMEOUT (API_CONFIG (load_module e)) \<noteq> Num 10000"
    by (simp add: load_module_def load_API_CONFIG_def)
  from a show "timeout (createApiConfig (load_module e) b) = NaN"
    by (simp add: createApiConfig_def load_module_def load_API_CONFIG_def)
next
  assume "TIMEOUT (API_CONFIG (load_module e)) = Num 10000"
  then show "(\<not> truthy (extraConfig e ''apiTimeout'') \<and> \<not> truthy (process_env e ''API_TIMEOUT''))
          \<or> (\<exists>v. v \<noteq> [] \<and> parseInt10 v = Num 10000
                  \<and> (extraConfig e ''apiTimeout'' = Some v
                       \<or> (\<not> truthy (extraConfig e ''apiTimeout'')
                           \<and> process_env e ''API_TIMEOUT'' = Some v)))"
    by (rule API_TIMEOUT_default_only)
qed

theorem API_TIMEOUT_not_defaulted_witness:
  "extraConfig (demo_env [(''apiTimeout'', ''ten seconds'')] []) ''apiTimeout'' = Some ''ten seconds''
   \<and> TIMEOUT (API_CONFIG (load_module (demo_env [(''apiTimeout'', ''ten seconds'')] []))) = NaN
   \<and> timeout (createApiConfig (load_module (demo_env [(''apiTimeout'', ''ten seconds'')] []))
                ''http://10.0.2.2:5000'') = NaN
   \<and> TIMEOUT (API_CONFIG (load_module (demo_env [] []))) = Num 10000"
proof -
  let ?e = "demo_env [(''apiTimeout'', ''ten seconds'')] []"
  have x: "extraConfig ?e ''apiTimeout'' = Some ''ten seconds''"
    by (simp add: demo_env_simps)
  have nan: "parseInt10 ''ten seconds'' = NaN"
    using API_TIMEOUT_not_defaulted[of ?e "''ten seconds''" "CHR ''t''" "''en seconds''"]
    by (simp add: is_space_def is_digit_def)
  have t: "TIMEOUT (API_CONFIG (load_module ?e)) = parseInt10 ''ten seconds''"
    using API_TIMEOUT_not_defaulted[of ?e "''ten seconds''"] x by blast
  have g: "parseInt10 (getEnvVar ?e ''API_TIMEOUT'' ''10000'') = NaN"
    by (simp add: getEnvVar_API_TIMEOUT x js_or_def truthy_def or_else_def nan)
  have c: "timeout (createApiConfig (load_module ?e) ''http://10.0.2.2:5000'') = NaN"
    using API_TIMEOUT_not_defaulted[of ?e _ _ _ "''http://10.0.2.2:5000''"] g by blast
  have n: "\<not> truthy (extraConfig (demo_env [] []) ''apiTimeout'')
           \<and> \<not> truthy (process_env (demo_env [] []) ''API_TIMEOUT'')"
    by (simp add: demo_env_simps truthy_def)
  have d: "TIMEOUT (API_CONFIG (load_module (demo_env [] []))) = Num 10000"
    using API_TIMEOUT_not_defaulted[of "demo_env [] []"] n by blast
  from t nan have t': "TIMEOUT (API_CONFIG (load_module ?e)) = NaN" by simp
  show ?thesis by (intro conjI) (rule x, rule t', rule c, rule d)
qed

section \<open>The probing loop\<close>

lemma probe_loop_first:
  "i < length urls \<Longrightarrow> probe_ok t (nw (k + i) (FetchGet (urls ! i @ h))) \<Longrightarrow>
   (\<forall>j<i. \<not> probe_ok t (nw (k + j) (FetchGet (urls ! j @ h)))) \<Longrightarrow>
   probe_loop nw h t k urls = (Some (urls ! i), map (\<lambda>u. FetchGet (u @ h)) (take (Suc i) urls))"
proof (induction urls arbitrary: i k)
  case Nil
  then show ?case by simp
next
  case (Cons u urls)
  show ?case
  proof (cases i)
    case 0
    with Cons.prems show ?thesis by simp
  next
    case (Suc i')
    with Cons.prems have fail0: "\<not> probe_ok t (nw k (FetchGet (u @ h)))"
      by (metis add.right_neutral nth_Cons_0 zero_less_Suc)
    have a: "i' < length urls" using Cons.prems Suc by simp
    have b: "probe_ok t (nw (Suc k + i') (FetchGet (urls ! i' @ h)))"
      using Cons.prems Suc by simp
    have c: "\<forall>j<i'. \<not> probe_ok t (nw (Suc k + j) (FetchGet (urls ! j @ h)))"
    proof (intro allI impI)
      fix j assume "j < i'"
      then have "Suc j < i" using Suc by simp
      with Cons.prems(3) have "\<not> probe_ok t (nw (k + Suc j) (FetchGet ((u # urls) ! Suc j @ h)))"
        by blast
      then show "\<not> probe_ok t (nw (Suc k + j) (FetchGet (urls ! j @ h)))" by simp
    qed
    from Cons.IH[OF a b c] fail0 Suc show ?thesis by simp
  qed
qed

lemma probe_loop_none:
  "(\<forall>j<length urls. \<not> probe_ok t (nw (k + j) (FetchGet (urls ! j @ h)))) \<Longrightarrow>
   probe_loop nw h t k urls = (None, map (\<lambda>u. FetchGet (u @ h)) urls)"
proof (induction urls arbitrary: k)
  case Nil
  then show ?case by simp
next
  case (Cons u urls)
  from Cons.prems have fail0: "\<not> probe_ok t (nw k (FetchGet (u @ h)))"
    by (metis add.right_neutral length_greater_0_conv list.distinct(1) nth_Cons_0)
  have c: "\<forall>j<length urls. \<not> probe_ok t (nw (Suc k + j) (FetchGet (urls ! j @ h)))"
  proof (intro allI impI)
    fix j assume "j < length urls"
    then have "Suc j < length (u # urls)" by simp
    with Cons.prems have "\<not> probe_ok t (nw (k + Suc j) (FetchGet ((u # urls) ! Suc j @ h)))"
      by blast
    then show "\<not> probe_ok t (nw (Suc k + j) (FetchGet (urls ! j @ h)))" by simp
  qed
  from Cons.IH[OF c] fail0 show ?case by simp
qed


lemma first_index_exists:
  fixes P :: "nat \<Rightarrow> bool"
  assumes "\<exists>i<n. P i"
  shows "\<exists>i<n. P i \<and> (\<forall>j<i. \<not> P j)"
proof -
  from assms obtain i where i: "i < n" "P i" by blast
  from i(2) have "\<exists>m. P m \<and> (\<forall>j<m. \<not> P j)"
    using exists_least_iff[of P] by blast
  then obtain m where m: "P m" "\<forall>j<m. \<not> P j" by blast
  have "\<not> i < m" using m(2) i(2) by blast
  then have "m < n" using i(1) by simp
  with m show ?thesis by blast
qed

text \<open>
  Claim C1. When some candidate of the list answers its health GET with an ok status
  within the timeout, \<open>findWorkingApiUrl\<close> returns the first such candidate; the
  requests it issued are the health GETs of the candidates up to that one, in list
  order, one per request number, and none for a later candidate.
\<close>

theorem findWorkingApiUrl_first_reachable:
  assumes best: "resolveApiBaseUrl c (env_at w k) = Inr best"
    and urls: "testUrls = filter_first_index (best # FALLBACK_URLS c)"
    and some: "\<exists>i<length testUrls.
                 probe_ok (sanitize_timeout arg)
                   (net w (k + i) (FetchGet (testUrls ! i @ HEALTH_ENDPOINT (API_CONFIG c))))"
  shows "\<exists>i<length testUrls.
           probe_ok (sanitize_timeout arg)
             (net w (k + i) (FetchGet (testUrls ! i @ HEALTH_ENDPOINT (API_CONFIG c))))
           \<and> (\<forall>j<i. \<not> probe_ok (sanitize_timeout arg)
                        (net w (k + j) (FetchGet (testUrls ! j @ HEALTH_ENDPOINT (API_CONFIG c)))))
           \<and> findWorkingApiUrl c w k arg
               = Inr (testUrls ! i,
                      map (\<lambda>u. FetchGet (u @ HEALTH_ENDPOINT (API_CONFIG c)))
                          (take (Suc i) testUrls))"
proof -
  let ?ok = "\<lambda>i. probe_ok (sanitize_timeout arg)
                   (net w (k + i) (FetchGet (testUrls ! i @ HEALTH_ENDPOINT (API_CONFIG c))))"
  from first_index_exists[of "length testUrls" ?ok] some
  obtain i where i: "i < length testUrls" "?ok i" "\<forall>j<i. \<not> ?ok j" by blast
  have "probe_loop (net w) (HEALTH_ENDPOINT (API_CONFIG c)) (sanitize_timeout arg) k testUrls
          = (Some (testUrls ! i),
             map (\<lambda>u. FetchGet (u @ HEALTH_ENDPOINT (API_CONFIG c))) (take (Suc i) testUrls))"
    using i by (rule probe_loop_first)
  then have "findWorkingApiUrl c w k arg
               = Inr (testUrls ! i,
                      map (\<lambda>u. FetchGet (u @ HEALTH_ENDPOINT (API_CONFIG c)))
                          (take (Suc i) testUrls))"
    using best urls by (simp add: findWorkingApiUrl_def)
  with i show ?thesis by blast
qed

text \<open>
  Claim C2. When no candidate's probe succeeds, \<open>findWorkingApiUrl\<close> has probed every
  candidate once and returns what \<open>resolveApiBaseUrl\<close> gives in the environment as it is
  after the last probe; it does not raise, and the result is empty only when that
  resolution is empty.
\<close>

theorem findWorkingApiUrl_all_fail:
  assumes best: "resolveApiBaseUrl c (env_at w k) = Inr best"
    and urls: "testUrls = filter_first_index (best # FALLBACK_URLS c)"
    and none: "\<forall>i<length testUrls.
                 \<not> probe_ok (sanitize_timeout arg)
                     (net w (k + i) (FetchGet (testUrls ! i @ HEALTH_ENDPOINT (API_CONFIG c))))"
  shows "\<exists>u. resolveApiBaseUrl c (env_at w (k + length testUrls)) = Inr u
           \<and> findWorkingApiUrl c w k arg
               = Inr (u, map (\<lambda>x. FetchGet (x @ HEALTH_ENDPOINT (API_CONFIG c))) testUrls)
           \<and> (u \<noteq> [] \<or> resolveApiBaseUrl c (env_at w (k + length testUrls)) = Inr [])"
proof -
  obtain u where u: "resolveApiBaseUrl c (env_at w (k + length testUrls)) = Inr u"
    using resolveApiBaseUrl_returns by blast
  have "probe_loop (net w) (HEALTH_ENDPOINT (API_CONFIG c)) (sanitize_timeout arg) k testUrls
          = (None, map (\<lambda>x. FetchGet (x @ HEALTH_ENDPOINT (API_CONFIG c))) testUrls)"
    using none by (rule probe_loop_none)
  then have "findWorkingApiUrl c w k arg
               = Inr (u, map (\<lambda>x. FetchGet (x @ HEALTH_ENDPOINT (API_CONFIG c))) testUrls)"
    using best urls u by (simp add: findWorkingApiUrl_def)
  with u show ?thesis by auto
qed


theorem findWorkingApiUrl_first_reachable_witness:
  "resolveApiBaseUrl (load_module probe_env) (env_at probe_world 0) = Inr ''http://a''
   \<and> [''http://a'', ''http://b'', ''http://c'', ''http://d'']
       = filter_first_index (''http://a'' # FALLBACK_URLS (load_module probe_env))
   \<and> probe_ok (sanitize_timeout Undefined)
        (net probe_world 2 (FetchGet (''http://c'' @ HEALTH_ENDPOINT (API_CONFIG (load_module probe_env)))))
   \<and> findWorkingApiUrl (load_module probe_env) probe_world 0 Undefined
       = Inr (''http://c'', [FetchGet ''http://a/api/health'', FetchGet ''http://b/api/health'',
                             FetchGet ''http://c/api/health''])"
proof -
  let ?c = "load_module probe_env"
  let ?urls = "[''http://a'', ''http://b'', ''http://c'', ''http://d'']"
  let ?ok = "\<lambda>i. probe_ok (sanitize_timeout Undefined)
                   (net probe_world (0 + i) (FetchGet (?urls ! i @ HEALTH_ENDPOINT (API_CONFIG ?c))))"
  have best: "resolveApiBaseUrl ?c (env_at probe_world 0) = Inr ''http://a''"
    by code_simp
  have urls: "?urls = filter_first_index (''http://a'' # FALLBACK_URLS ?c)"
    by code_simp
  have h: "HEALTH_ENDPOINT (API_CONFIG ?c) = ''/api/health''"
    by code_simp
  have ok0: "\<not> ?ok 0" by code_simp
  have ok1: "\<not> ?ok 1" by code_simp
  have ok2: "?ok 2" by code_simp
  have some: "\<exists>i<length ?urls. ?ok i"
    using ok2 by (intro exI[of _ 2]) simp
  from findWorkingApiUrl_first_reachable[OF best urls some]
  obtain i where i: "i < length ?urls" "?ok i" "\<forall>j<i. \<not> ?ok j"
    and r: "findWorkingApiUrl ?c probe_world 0 Undefined
              = Inr (?urls ! i,
                     map (\<lambda>u. FetchGet (u @ HEALTH_ENDPOINT (API_CONFIG ?c))) (take (Suc i) ?urls))"
    by blast
  have "\<not> 2 < i" using i(3) ok2 by blast
  moreover have "i \<noteq> 0" using i(2) ok0 by metis
  moreover have "i \<noteq> 1" using i(2) ok1 by metis
  ultimately have "i = 2" by arith
  with r h have res: "findWorkingApiUrl ?c probe_world 0 Undefined
       = Inr (''http://c'', [FetchGet ''http://a/api/health'', FetchGet ''http://b/api/health'',
                             FetchGet ''http://c/api/health''])"
    by (simp add: numeral_2_eq_2)
  have ok2': "probe_ok (sanitize_timeout Undefined)
        (net probe_world 2 (FetchGet (''http://c'' @ HEALTH_ENDPOINT (API_CONFIG ?c))))"
    by code_simp
  show ?thesis by (intro conjI) (rule best, rule urls, rule ok2', rule res)
qed


theorem findWorkingApiUrl_all_fail_witness:
  "resolveApiBaseUrl (load_module failing_env) (env_at failing_world 0) = Inr ''http://a''
   \<and> [''http://a'', ''http://b'']
       = filter_first_index (''http://a'' # FALLBACK_URLS (load_module failing_env))
   \<and> findWorkingApiUrl (load_module failing_env) failing_world 0 Undefined
       = Inr (''http://z'', [FetchGet ''http://a/api/health'', FetchGet ''http://b/api/health''])"
proof -
  let ?c = "load_module failing_env"
  let ?urls = "[''http://a'', ''http://b'']"
  let ?ok = "\<lambda>i. probe_ok (sanitize_timeout Undefined)
                   (net failing_world (0 + i) (FetchGet (?urls ! i @ HEALTH_ENDPOINT (API_CONFIG ?c))))"
  have best: "resolveApiBaseUrl ?c (env_at failing_world 0) = Inr ''http://a''"
    by code_simp
  have urls: "?urls = filter_first_index (''http://a'' # FALLBACK_URLS ?c)"
    by code_simp
  have h: "HEALTH_ENDPOINT (API_CONFIG ?c) = ''/api/health''"
    by code_simp
  have ok0: "\<not> ?ok 0" by code_simp
  have ok1: "\<not> ?ok 1" by code_simp
  have none: "\<forall>i<length ?urls. \<not> ?ok i"
  proof (intro allI impI)
    fix i assume "i < length ?urls"
    then have "i = 0 \<or> i = 1" by auto
    then show "\<not> ?ok i" using ok0 ok1 by metis
  qed
  have last: "resolveApiBaseUrl ?c (env_at failing_world (0 + length ?urls)) = Inr ''http://z''"
    by code_simp
  from findWorkingApiUrl_all_fail[OF best urls none]
  obtain u where u: "resolveApiBaseUrl ?c (env_at failing_world (0 + length ?urls)) = Inr u"
    and r: "findWorkingApiUrl ?c failing_world 0 Undefined
              = Inr (u, map (\<lambda>x. FetchGet (x @ HEALTH_ENDPOINT (API_CONFIG ?c))) ?urls)"
    by blast
  from u last have "u = ''http://z''" by simp
  with r h have res: "findWorkingApiUrl ?c failing_world 0 Undefined
       = Inr (''http://z'', [FetchGet ''http://a/api/health'', FetchGet ''http://b/api/health''])"
    by simp
  show ?thesis by (intro conjI) (rule best, rule urls, rule res)
qed

section \<open>The probe timeout\<close>

lemma findWorkingApiUrl_timeout_cong:
  "sanitize_timeout a = sanitize_timeout b \<Longrightarrow> findWorkingApiUrl c w k a = findWorkingApiUrl c w k b"
  by (simp add: findWorkingApiUrl_def)

lemma sanitize_timeout_cases:
  "sanitize_timeout arg =
     (case arg of Number (Num n) \<Rightarrow> if n < 50 then 3000 else n | _ \<Rightarrow> 3000)"
  by (simp add: sanitize_timeout_def split: jsval.splits jsnum.splits)

text \<open>
  Claim C8. A call with timeout 0 is the same as a call with timeout 3000, in every
  world and from every request number; so is a call with any argument that is not a
  number, is NaN or is below 50. The timeout used is never below 50, so a response
  that arrives in less than 50 ms is never cut off.
\<close>

theorem findWorkingApiUrl_timeout_sanitized:
  "findWorkingApiUrl c w k (Number (Num 0)) = findWorkingApiUrl c w k (Number (Num 3000))
   \<and> ((\<forall>n. arg \<noteq> Number (Num n)) \<or> (\<exists>n. arg = Number (Num n) \<and> n < 50)
        \<longrightarrow> sanitize_timeout arg = 3000
            \<and> findWorkingApiUrl c w k arg = findWorkingApiUrl c w k (Number (Num 3000)))
   \<and> 50 \<le> sanitize_timeout arg
   \<and> (ms < 50 \<longrightarrow> probe_ok (sanitize_timeout arg) (Responds ms True d))"
proof (intro conjI impI)
  show "findWorkingApiUrl c w k (Number (Num 0)) = findWorkingApiUrl c w k (Number (Num 3000))"
    by (rule findWorkingApiUrl_timeout_cong) (simp add: sanitize_timeout_cases)
next
  assume a: "(\<forall>n. arg \<noteq> Number (Num n)) \<or> (\<exists>n. arg = Number (Num n) \<and> n < 50)"
  then show s: "sanitize_timeout arg = 3000"
    by (auto simp: sanitize_timeout_cases split: jsval.splits jsnum.splits)
  show "findWorkingApiUrl c w k arg = findWorkingApiUrl c w k (Number (Num 3000))"
    by (rule findWorkingApiUrl_timeout_cong) (simp add: s, simp add: sanitize_timeout_cases)
next
  show b: "50 \<le> sanitize_timeout arg"
    by (simp add: sanitize_timeout_cases split: jsval.splits jsnum.splits)
  assume "ms < 50"
  with b show "probe_ok (sanitize_timeout arg) (Responds ms True d)"
    by (simp add: probe_ok_def)
qed

theorem findWorkingApiUrl_timeout_sanitized_witness:
  "findWorkingApiUrl (load_module probe_env) probe_world 0 (String ''http://a'')
     = findWorkingApiUrl (load_module probe_env) probe_world 0 (Number (Num 3000))
   \<and> findWorkingApiUrl (load_module probe_env) probe_world 0 (Number (Num 0))
     = Inr (''http://c'', [FetchGet ''http://a/api/health'', FetchGet ''http://b/api/health'',
                           FetchGet ''http://c/api/health''])
   \<and> probe_ok (sanitize_timeout (Number (Num 0))) (Responds 20 True no_body)"
proof -
  let ?c = "load_module probe_env"
  have n: "(\<forall>n. String ''http://a'' \<noteq> Number (Num n))
           \<or> (\<exists>n. String ''http://a'' = Number (Num n) \<and> n < 50)"
    by simp
  have a: "findWorkingApiUrl ?c probe_world 0 (String ''http://a'')
             = findWorkingApiUrl ?c probe_world 0 (Number (Num 3000))"
    using findWorkingApiUrl_timeout_sanitized[of ?c probe_world 0 "String ''http://a''"] n
    by blast
  have e: "findWorkingApiUrl ?c probe_world 0 (Number (Num 3000))
     = Inr (''http://c'', [FetchGet ''http://a/api/health'', FetchGet ''http://b/api/health'',
                           FetchGet ''http://c/api/health''])"
    by code_simp
  have z: "findWorkingApiUrl ?c probe_world 0 (Number (Num 0))
             = findWorkingApiUrl ?c probe_world 0 (Number (Num 3000))"
    using findWorkingApiUrl_timeout_sanitized[of ?c probe_world 0] by blast
  have b: "findWorkingApiUrl ?c probe_world 0 (Number (Num 0))
     = Inr (''http://c'', [FetchGet ''http://a/api/health'', FetchGet ''http://b/api/health'',
                           FetchGet ''http://c/api/health''])"
    using z e by (rule trans)
  have lt: "(20::nat) < 50" by simp
  have p: "probe_ok (sanitize_timeout (Number (Num 0))) (Responds 20 True no_body)"
    using findWorkingApiUrl_timeout_sanitized[of ?c probe_world 0 "Number (Num 0)" 20 no_body] lt
    by blast
  show ?thesis by (intro conjI) (rule a, rule b, rule p)
qed

section \<open>The candidate list\<close>

lemma indexOf_in_bounds: "x \<in> set xs \<Longrightarrow> 0 \<le> indexOf xs x \<and> indexOf xs x < int (length xs)"
  by (induction xs) (auto simp: Let_def)

lemma indexOf_append_in: "x \<in> set xs \<Longrightarrow> indexOf (xs @ ys) x = indexOf xs x"
proof (induction xs)
  case Nil
  then show ?case by simp
next
  case (Cons y xs)
  show ?case
  proof (cases "y = x")
    case True
    then show ?thesis by simp
  next
    case False
    with Cons.prems have "x \<in> set xs" by simp
    with Cons.IH False show ?thesis by (simp add: Let_def)
  qed
qed

lemma indexOf_snoc_new: "x \<notin> set xs \<Longrightarrow> indexOf (xs @ [x]) x = int (length xs)"
  by (induction xs) (auto simp: Let_def)

text \<open>What the filter does when one more element is pushed at the end of the array.\<close>

lemma filter_first_index_snoc:
  "filter_first_index (xs @ [x]) = filter_first_index xs @ (if x \<in> set xs then [] else [x])"
proof -
  let ?n = "length xs"
  have z: "zip (xs @ [x]) [0..<length (xs @ [x])] = zip xs [0..<?n] @ [(x, ?n)]"
    by simp
  have old: "filter (\<lambda>(url, index). indexOf (xs @ [x]) url = int index) (zip xs [0..<?n])
           = filter (\<lambda>(url, index). indexOf xs url = int index) (zip xs [0..<?n])"
  proof (rule filter_cong[OF refl])
    fix p assume "p \<in> set (zip xs [0..<?n])"
    then have "fst p \<in> set xs" by (metis prod.collapse set_zip_leftD)
    then show "(case p of (url, index) \<Rightarrow> indexOf (xs @ [x]) url = int index)
             = (case p of (url, index) \<Rightarrow> indexOf xs url = int index)"
      by (cases p) (simp add: indexOf_append_in)
  qed
  have new: "(indexOf (xs @ [x]) x = int ?n) = (x \<notin> set xs)"
  proof (cases "x \<in> set xs")
    case True
    then show ?thesis using indexOf_in_bounds[OF True] by (simp add: indexOf_append_in)
  next
    case False
    then show ?thesis by (simp add: indexOf_snoc_new)
  qed
  show ?thesis
    unfolding filter_first_index_def z using old new by simp
qed

lemma filter_first_index_Nil: "filter_first_index [] = []"
  by (simp add: filter_first_index_def)

lemma set_filter_first_index: "set (filter_first_index xs) = set xs"
  by (induction xs rule: rev_induct) (auto simp: filter_first_index_Nil filter_first_index_snoc)

lemma distinct_filter_first_index: "distinct (filter_first_index xs)"
  by (induction xs rule: rev_induct)
     (auto simp: filter_first_index_Nil filter_first_index_snoc set_filter_first_index)

lemma hd_filter_first_index: "hd (filter_first_index (b # xs)) = b"
proof (induction xs rule: rev_induct)
  case Nil
  show ?case by (simp add: filter_first_index_def)
next
  case (snoc x xs)
  have ne: "filter_first_index (b # xs) \<noteq> []"
    using set_filter_first_index[of "b # xs"] by auto
  have "filter_first_index (b # xs @ [x]) = filter_first_index ((b # xs) @ [x])" by simp
  also have "\<dots> = filter_first_index (b # xs) @ (if x \<in> set (b # xs) then [] else [x])"
    by (rule filter_first_index_snoc)
  finally show ?case using ne snoc.IH by simp
qed

lemma filter_first_index_order:
  "i < j \<Longrightarrow> j < length (filter_first_index xs) \<Longrightarrow>
     indexOf xs (filter_first_index xs ! i) < indexOf xs (filter_first_index xs ! j)"
proof (induction xs arbitrary: i j rule: rev_induct)
  case Nil
  then show ?case by (simp add: filter_first_index_Nil)
next
  case (snoc x xs)
  let ?out = "filter_first_index xs"
  show ?case
  proof (cases "x \<in> set xs")
    case True
    then have eq: "filter_first_index (xs @ [x]) = ?out" by (simp add: filter_first_index_snoc)
    from snoc.prems eq have j: "j < length ?out" by simp
    with snoc.prems have i: "i < length ?out" by simp
    have "?out ! i \<in> set xs" "?out ! j \<in> set xs"
      using i j set_filter_first_index[of xs] nth_mem by blast+
    then show ?thesis using snoc.IH[OF snoc.prems(1) j] eq by (simp add: indexOf_append_in)
  next
    case False
    then have eq: "filter_first_index (xs @ [x]) = ?out @ [x]" by (simp add: filter_first_index_snoc)
    show ?thesis
    proof (cases "j < length ?out")
      case True
      with snoc.prems have i: "i < length ?out" by simp
      have "?out ! i \<in> set xs" "?out ! j \<in> set xs"
        using i True set_filter_first_index[of xs] nth_mem by blast+
      then show ?thesis using snoc.IH[OF snoc.prems(1) True] eq i True
        by (simp add: indexOf_append_in nth_append)
    next
      case jl: False
      with snoc.prems eq have j: "j = length ?out" by simp
      with snoc.prems have i: "i < length ?out" by simp
      have mem: "?out ! i \<in> set xs"
        using i set_filter_first_index[of xs] nth_mem by blast
      have "indexOf (xs @ [x]) (?out ! i) = indexOf xs (?out ! i)"
        using mem by (rule indexOf_append_in)
      moreover have "indexOf xs (?out ! i) < int (length xs)"
        using indexOf_in_bounds[OF mem] by simp
      moreover have "indexOf (xs @ [x]) x = int (length xs)"
        using False by (rule indexOf_snoc_new)
      ultimately show ?thesis using eq i j by (simp add: nth_append)
    qed
  qed
qed

text \<open>
  Claim C3. The candidate list \<open>[resolveApiBaseUrl(), ...FALLBACK_URLS]\<close> after the
  filter has no duplicate, keeps exactly the URLs of the unfiltered list, is not empty,
  starts with the best-guess URL, and lists its URLs in the order of their first
  occurrence in the unfiltered list.
\<close>

theorem candidate_list_deduplicated:
  "distinct (filter_first_index (best # fallbacks))
   \<and> set (filter_first_index (best # fallbacks)) = set (best # fallbacks)
   \<and> filter_first_index (best # fallbacks) \<noteq> []
   \<and> hd (filter_first_index (best # fallbacks)) = best
   \<and> (\<forall>i j. i < j \<and> j < length (filter_first_index (best # fallbacks))
          \<longrightarrow> indexOf (best # fallbacks) (filter_first_index (best # fallbacks) ! i)
                < indexOf (best # fallbacks) (filter_first_index (best # fallbacks) ! j))"
proof (intro conjI allI impI)
  show "distinct (filter_first_index (best # fallbacks))"
    by (rule distinct_filter_first_index)
  show s: "set (filter_first_index (best # fallbacks)) = set (best # fallbacks)"
    by (rule set_filter_first_index)
  show "filter_first_index (best # fallbacks) \<noteq> []"
    using s by auto
  show "hd (filter_first_index (best # fallbacks)) = best"
    by (rule hd_filter_first_index)
next
  fix i j
  assume "i < j \<and> j < length (filter_first_index (best # fallbacks))"
  then show "indexOf (best # fallbacks) (filter_first_index (best # fallbacks) ! i)
               < indexOf (best # fallbacks) (filter_first_index (best # fallbacks) ! j)"
    using filter_first_index_order[of i j "best # fallbacks"] by blast
qed

theorem candidate_list_deduplicated_witness:
  "resolveApiBaseUrl (load_module dup_env) dup_env = Inr ''http://a''
   \<and> FALLBACK_URLS (load_module dup_env) = [''http://a'', ''http://b'', ''http://a'']
   \<and> filter_first_index (''http://a'' # FALLBACK_URLS (load_module dup_env))
       = [''http://a'', ''http://b'']
   \<and> indexOf (''http://a'' # FALLBACK_URLS (load_module dup_env)) ''http://a''
       < indexOf (''http://a'' # FALLBACK_URLS (load_module dup_env)) ''http://b''"
proof -
  let ?in = "''http://a'' # FALLBACK_URLS (load_module dup_env)"
  have r: "resolveApiBaseUrl (load_module dup_env) dup_env = Inr ''http://a''"
    by code_simp
  have f: "FALLBACK_URLS (load_module dup_env) = [''http://a'', ''http://b'', ''http://a'']"
    by code_simp
  have out: "filter_first_index ?in = [''http://a'', ''http://b'']"
    by code_simp
  have lt: "(0::nat) < 1 \<and> 1 < length (filter_first_index ?in)"
    by (simp add: out)
  have "indexOf ?in (filter_first_index ?in ! 0) < indexOf ?in (filter_first_index ?in ! 1)"
    using candidate_list_deduplicated[of "''http://a''" "FALLBACK_URLS (load_module dup_env)"] lt
    by blast
  then have ord: "indexOf ?in ''http://a'' < indexOf ?in ''http://b''"
    by (simp add: out)
  show ?thesis by (intro conjI) (rule r, rule f, rule out, rule ord)
qed


section \<open>The scanner screen's handlers\<close>




















end
